theory Spec2Isabelle
  imports Main "HOL-Library.Word" "HOL-Library.Sublist"
begin

unbundle bit_operations_syntax

section \<open>Go library functions used by the external processor\<close>

text \<open>
  The processor in \<^verbatim>\<open>pkg/ext-proc/server.go\<close> calls the Go standard library
  (\<^verbatim>\<open>strings\<close>, \<^verbatim>\<open>net\<close>, \<^verbatim>\<open>net/netip\<close>).  The functions it calls are
  transcribed here, loop by loop, so that the classifier can be evaluated on address
  literals.  A Go \<^verbatim>\<open>string\<close> is a byte sequence: \<^typ>\<open>string\<close>.  A \<^verbatim>\<open>byte\<close>
  is an \<^typ>\<open>8 word\<close>; a \<^verbatim>\<open>net.IP\<close> is a byte slice: \<^typ>\<open>8 word list\<close>, and
  the nil slice is \<^term>\<open>None\<close>.
\<close>

type_synonym byte = "8 word"
type_synonym IP = "byte list"

subsection \<open>Package strings\<close>

definition HasPrefix :: "string \<Rightarrow> string \<Rightarrow> bool" where
  "HasPrefix s p = prefix p s"

definition TrimPrefix :: "string \<Rightarrow> string \<Rightarrow> string" where
  "TrimPrefix s p = (if HasPrefix s p then drop (length p) s else s)"

text \<open>
  \<^verbatim>\<open>strings.Split(s, sep)\<close> for a separator of one byte: the pieces of \<open>s\<close>
  between the separators, at least one piece.
\<close>

fun Split :: "string \<Rightarrow> char \<Rightarrow> string list" where
  "Split [] sep = [[]]"
| "Split (c # cs) sep =
     (if c = sep then [] # Split cs sep
      else (case Split cs sep of
              [] \<Rightarrow> [[c]]
            | p # ps \<Rightarrow> (c # p) # ps))"

subsection \<open>Package net/netip: parsing an address literal\<close>

text \<open>A byte of a string as a number, for the comparisons \<^verbatim>\<open>'0' <= c && c <= '9'\<close>.\<close>

definition ord :: "char \<Rightarrow> nat" where
  "ord c = of_char c"

definition inRange :: "char \<Rightarrow> char \<Rightarrow> char \<Rightarrow> bool" where
  "inRange lo hi c = (ord lo \<le> ord c \<and> ord c \<le> ord hi)"

definition isDigit :: "char \<Rightarrow> bool" where
  "isDigit c = inRange CHR ''0'' CHR ''9'' c"

definition digitVal :: "char \<Rightarrow> nat" where
  "digitVal c = ord c - ord CHR ''0''"

text \<open>
  \<^verbatim>\<open>parseIPv4Fields\<close>: the loop over the bytes of the literal.  \<open>prev\<close> is the
  byte before the current one (\<^term>\<open>None\<close> at index 0), \<open>val\<close> the octet read so
  far, \<open>pos\<close> the index of the octet, \<open>digLen\<close> its number of digits.  Every
  \<^verbatim>\<open>parseAddrError\<close> is \<^term>\<open>None\<close>.
\<close>

fun parseIPv4Fields_loop ::
  "char option \<Rightarrow> string \<Rightarrow> nat \<Rightarrow> nat \<Rightarrow> nat \<Rightarrow> byte list \<Rightarrow> byte list option" where
  "parseIPv4Fields_loop prev [] val pos digLen fields =
     (if pos < 3 then None else Some (fields[3 := of_nat val]))"
| "parseIPv4Fields_loop prev (c # cs) val pos digLen fields =
     (if isDigit c then
        (if digLen = 1 \<and> val = 0 then None
         else if val * 10 + digitVal c > 255 then None
         else parseIPv4Fields_loop (Some c) cs (val * 10 + digitVal c) pos (digLen + 1) fields)
      else if c = CHR ''.'' then
        (if prev = None \<or> cs = [] \<or> prev = Some CHR ''.'' then None
         else if pos = 3 then None
         else parseIPv4Fields_loop (Some c) cs 0 (pos + 1) 0 (fields[pos := of_nat val]))
      else None)"

definition parseIPv4Fields :: "string \<Rightarrow> byte list option" where
  "parseIPv4Fields s = parseIPv4Fields_loop None s 0 0 0 [0, 0, 0, 0]"

definition v4InV6Prefix :: "byte list" where
  "v4InV6Prefix = [0, 0, 0, 0, 0, 0, 0, 0, 0, 0, 0xff, 0xff]"

text \<open>
  \<^verbatim>\<open>parseIPv4\<close> followed by \<^verbatim>\<open>Addr.As16\<close>: an IPv4 address is kept in its
  16-byte IPv4-mapped form.
\<close>

definition parseIPv4 :: "string \<Rightarrow> IP option" where
  "parseIPv4 s = (case parseIPv4Fields s of None \<Rightarrow> None | Some fields \<Rightarrow> Some (v4InV6Prefix @ fields))"

definition isHexDigit :: "char \<Rightarrow> bool" where
  "isHexDigit c =
     (inRange CHR ''0'' CHR ''9'' c \<or> inRange CHR ''a'' CHR ''f'' c \<or> inRange CHR ''A'' CHR ''F'' c)"

definition hexVal :: "char \<Rightarrow> nat" where
  "hexVal c =
     (if inRange CHR ''0'' CHR ''9'' c then ord c - ord CHR ''0''
      else if inRange CHR ''a'' CHR ''f'' c then ord c - ord CHR ''a'' + 10
      else ord c - ord CHR ''A'' + 10)"

text \<open>
  The inner loop of \<^verbatim>\<open>parseIPv6\<close> that reads one group of hex digits from \<open>s\<close>:
  \<open>off\<close> counts the digits read, \<open>acc\<close> is their value (a \<^verbatim>\<open>uint32\<close> that stays
  below \<open>2^20\<close>, so it never wraps).  The result is \<open>off\<close>, \<open>acc\<close> and
  \<^verbatim>\<open>s[off:]\<close>; more than four digits, or a value above \<^verbatim>\<open>math.MaxUint16\<close>, is
  an error.
\<close>

fun hexGroup_loop :: "string \<Rightarrow> nat \<Rightarrow> nat \<Rightarrow> (nat \<times> nat \<times> string) option" where
  "hexGroup_loop [] off acc = Some (off, acc, [])"
| "hexGroup_loop (c # cs) off acc =
     (if isHexDigit c then
        (if off > 3 then None
         else if acc * 16 + hexVal c > 65535 then None
         else hexGroup_loop cs (off + 1) (acc * 16 + hexVal c))
      else Some (off, acc, c # cs))"

text \<open>
  The outer loop \<^verbatim>\<open>for i < 16\<close> of \<^verbatim>\<open>parseIPv6\<close>.  The state is the rest of the
  literal \<open>s\<close>, the write index \<open>i\<close>, the 16 bytes \<open>ip\<close> and the position of the
  ellipsis (\<^term>\<open>None\<close> for \<open>-1\<close>).  It returns the state at the loop's exit.
\<close>

function parseIPv6_loop ::
  "string \<Rightarrow> nat \<Rightarrow> byte list \<Rightarrow> nat option \<Rightarrow> (string \<times> nat \<times> byte list \<times> nat option) option" where
  "parseIPv6_loop s i ip ellipsis =
     (if \<not> i < 16 then Some (s, i, ip, ellipsis)
      else
        (case hexGroup_loop s 0 0 of
           None \<Rightarrow> None
         | Some (off, acc, rest) \<Rightarrow>
             if off = 0 then None
             else if rest \<noteq> [] \<and> hd rest = CHR ''.'' then
               (if ellipsis = None \<and> i \<noteq> 12 then None
                else if i + 4 > 16 then None
                else
                  (case parseIPv4Fields_loop None s 0 0 0 (take 4 (drop i ip)) of
                     None \<Rightarrow> None
                   | Some fields \<Rightarrow> Some ([], i + 4, take i ip @ fields @ drop (i + 4) ip, ellipsis)))
             else if rest = [] then
               Some ([], i + 2, ip[i := of_nat (acc div 256), i + 1 := of_nat acc], ellipsis)
             else if hd rest \<noteq> CHR '':'' then None
             else if length rest = 1 then None
             else if hd (tl rest) = CHR '':'' then
               (if ellipsis \<noteq> None then None
                else if tl (tl rest) = [] then
                  Some ([], i + 2, ip[i := of_nat (acc div 256), i + 1 := of_nat acc], Some (i + 2))
                else parseIPv6_loop (tl (tl rest)) (i + 2)
                       (ip[i := of_nat (acc div 256), i + 1 := of_nat acc]) (Some (i + 2)))
             else parseIPv6_loop (tl rest) (i + 2)
                    (ip[i := of_nat (acc div 256), i + 1 := of_nat acc]) ellipsis))"
  by pat_completeness auto
termination
  by (relation "measure (\<lambda>(s, i, ip, ellipsis). 16 - i)") auto

declare parseIPv6_loop.simps [simp del]

text \<open>The zero value of \<^verbatim>\<open>[16]byte\<close>.\<close>

definition zero16 :: "byte list" where
  "zero16 = [0, 0, 0, 0, 0, 0, 0, 0, 0, 0, 0, 0, 0, 0, 0, 0]"

text \<open>
  \<^verbatim>\<open>parseIPv6\<close>: the zone is split off at the first \<open>%\<close>, a leading \<open>::\<close> is
  read, the loop runs, and the ellipsis is expanded into zero bytes.  The result is the
  address and its zone.
\<close>

definition parseIPv6 :: "string \<Rightarrow> (IP \<times> string) option" where
  "parseIPv6 inp =
     (let s0 = takeWhile (\<lambda>c. c \<noteq> CHR ''%'') inp;
          hasZone = (CHR ''%'' \<in> set inp);
          zone = (if hasZone then tl (dropWhile (\<lambda>c. c \<noteq> CHR ''%'') inp) else [])
      in if hasZone \<and> zone = [] then None
         else
           let lead = (length s0 \<ge> 2 \<and> s0 ! 0 = CHR '':'' \<and> s0 ! 1 = CHR '':'');
               s1 = (if lead then drop 2 s0 else s0);
               ellipsis0 = (if lead then Some 0 else None)
           in if lead \<and> s1 = [] then Some (zero16, zone)
              else
                (case parseIPv6_loop s1 0 zero16 ellipsis0 of
                   None \<Rightarrow> None
                 | Some (s, i, ip, ellipsis) \<Rightarrow>
                     if s \<noteq> [] then None
                     else if i < 16 then
                       (case ellipsis of
                          None \<Rightarrow> None
                        | Some e \<Rightarrow>
                            Some (take e ip @ replicate (16 - i) 0 @ take (i - e) (drop e ip), zone))
                     else if ellipsis \<noteq> None then None
                     else Some (ip, zone)))"

text \<open>
  \<^verbatim>\<open>netip.ParseAddr\<close>: the first of \<open>.\<close>, \<open>:\<close> and \<open>%\<close> in the literal selects
  the parser.
\<close>

fun ParseAddr_scan :: "string \<Rightarrow> string \<Rightarrow> (IP \<times> string) option" where
  "ParseAddr_scan s [] = None"
| "ParseAddr_scan s (c # cs) =
     (if c = CHR ''.'' then (case parseIPv4 s of None \<Rightarrow> None | Some ip \<Rightarrow> Some (ip, []))
      else if c = CHR '':'' then parseIPv6 s
      else if c = CHR ''%'' then None
      else ParseAddr_scan s cs)"

definition ParseAddr :: "string \<Rightarrow> (IP \<times> string) option" where
  "ParseAddr s = ParseAddr_scan s s"

subsection \<open>Package net: the type IP\<close>

text \<open>\<^verbatim>\<open>net.ParseIP\<close>: an address with a zone is refused; the result has 16 bytes.\<close>

definition ParseIP :: "string \<Rightarrow> IP option" where
  "ParseIP s =
     (case ParseAddr s of
        None \<Rightarrow> None
      | Some (ip, zone) \<Rightarrow> if zone \<noteq> [] then None else Some ip)"

definition IPv4len :: nat where "IPv4len = 4"
definition IPv6len :: nat where "IPv6len = 16"

definition isZeros :: "byte list \<Rightarrow> bool" where
  "isZeros p = list_all (\<lambda>b. b = 0) p"

definition To4 :: "IP \<Rightarrow> IP option" where
  "To4 ip =
     (if length ip = IPv4len then Some ip
      else if length ip = IPv6len \<and> isZeros (take 10 ip) \<and> ip ! 10 = 0xff \<and> ip ! 11 = 0xff
        then Some (drop 12 ip)
      else None)"

definition To16 :: "IP \<Rightarrow> IP option" where
  "To16 ip =
     (if length ip = IPv4len then Some (v4InV6Prefix @ ip)
      else if length ip = IPv6len then Some ip
      else None)"

definition Equal :: "IP \<Rightarrow> IP \<Rightarrow> bool" where
  "Equal ip x =
     (if length ip = length x then ip = x
      else if length ip = IPv4len \<and> length x = IPv6len then take 12 x = v4InV6Prefix \<and> ip = drop 12 x
      else if length ip = IPv6len \<and> length x = IPv4len then take 12 ip = v4InV6Prefix \<and> drop 12 ip = x
      else False)"

definition IPv4zero :: IP where
  "IPv4zero = v4InV6Prefix @ [0, 0, 0, 0]"

definition IPv6unspecified :: IP where
  "IPv6unspecified = zero16"

definition IPv6loopback :: IP where
  "IPv6loopback = [0, 0, 0, 0, 0, 0, 0, 0, 0, 0, 0, 0, 0, 0, 0, 1]"

definition IsUnspecified :: "IP \<Rightarrow> bool" where
  "IsUnspecified ip = (Equal ip IPv4zero \<or> Equal ip IPv6unspecified)"

definition IsLoopback :: "IP \<Rightarrow> bool" where
  "IsLoopback ip =
     (case To4 ip of
        Some ip4 \<Rightarrow> ip4 ! 0 = 127
      | None \<Rightarrow> Equal ip IPv6loopback)"

definition IsPrivate :: "IP \<Rightarrow> bool" where
  "IsPrivate ip =
     (case To4 ip of
        Some ip4 \<Rightarrow>
          ip4 ! 0 = 10 \<or> (ip4 ! 0 = 172 \<and> (ip4 ! 1) AND 0xf0 = 16) \<or> (ip4 ! 0 = 192 \<and> ip4 ! 1 = 168)
      | None \<Rightarrow> length ip = IPv6len \<and> (ip ! 0) AND 0xfe = 0xfc)"

definition IsMulticast :: "IP \<Rightarrow> bool" where
  "IsMulticast ip =
     (case To4 ip of
        Some ip4 \<Rightarrow> (ip4 ! 0) AND 0xf0 = 0xe0
      | None \<Rightarrow> length ip = IPv6len \<and> ip ! 0 = 0xff)"

definition IsLinkLocalUnicast :: "IP \<Rightarrow> bool" where
  "IsLinkLocalUnicast ip =
     (case To4 ip of
        Some ip4 \<Rightarrow> ip4 ! 0 = 169 \<and> ip4 ! 1 = 254
      | None \<Rightarrow> length ip = IPv6len \<and> ip ! 0 = 0xfe \<and> (ip ! 1) AND 0xc0 = 0x80)"

text \<open>
  \<^verbatim>\<open>net.IPNet\<close> as \<^verbatim>\<open>ParseCIDR\<close> builds it: the network number and the mask,
  of 4 bytes for an IPv4 prefix and of 16 for an IPv6 one.  \<^verbatim>\<open>Contains\<close> compares
  under the mask, an IPv4-mapped address in its 4-byte form.
\<close>

record IPNet =
  net_IP :: IP
  net_Mask :: "byte list"

definition Contains :: "IPNet \<Rightarrow> IP \<Rightarrow> bool" where
  "Contains n ip =
     (let x = (case To4 ip of Some ip4 \<Rightarrow> ip4 | None \<Rightarrow> ip) in
      if length x \<noteq> length (net_IP n) then False
      else list_all (\<lambda>k. (net_IP n ! k) AND (net_Mask n ! k) = (x ! k) AND (net_Mask n ! k)) [0..<length x])"

text \<open>The four networks the classifier obtains from \<^verbatim>\<open>net.ParseCIDR\<close>.\<close>

definition testNet1 :: IPNet where
  "testNet1 = \<lparr>net_IP = [192, 0, 2, 0], net_Mask = [0xff, 0xff, 0xff, 0]\<rparr>"

definition testNet2 :: IPNet where
  "testNet2 = \<lparr>net_IP = [198, 51, 100, 0], net_Mask = [0xff, 0xff, 0xff, 0]\<rparr>"

definition testNet3 :: IPNet where
  "testNet3 = \<lparr>net_IP = [203, 0, 113, 0], net_Mask = [0xff, 0xff, 0xff, 0]\<rparr>"

definition testNet6 :: IPNet where
  "testNet6 = \<lparr>net_IP = [0x20, 0x01, 0x0d, 0xb8, 0, 0, 0, 0, 0, 0, 0, 0, 0, 0, 0, 0],
                net_Mask = [0xff, 0xff, 0xff, 0xff, 0, 0, 0, 0, 0, 0, 0, 0, 0, 0, 0, 0]\<rparr>"

section \<open>The address classifier\<close>

text \<open>
  \<^verbatim>\<open>isUpstreamIPSafe\<close> of \<^verbatim>\<open>server.go\<close>, check by check in the source's order.
  The result is the pair (safe, reason).
\<close>

definition inDocumentationRange :: "IP \<Rightarrow> bool" where
  "inDocumentationRange ip =
     (Contains testNet1 ip \<or> Contains testNet2 ip \<or> Contains testNet3 ip \<or> Contains testNet6 ip)"

text \<open>
  The end of the function, from the \<^verbatim>\<open>net.ParseCIDR\<close> calls on: every path that
  leaves the block for IPv4-mapped addresses without returning continues here.
\<close>

definition checkDocumentationRanges :: "IP \<Rightarrow> bool \<times> string" where
  "checkDocumentationRanges ip =
     (if inDocumentationRange ip then (False, ''documentation/test network range is blocked'')
      else (True, []))"

function isUpstreamIPSafe :: "string \<Rightarrow> bool \<times> string" where
  "isUpstreamIPSafe ipStr =
     (if ipStr = [] then (False, ''empty IP address'')
      else
        (case ParseIP ipStr of
           None \<Rightarrow> (False, ''invalid IP address'')
         | Some ip \<Rightarrow>
             if IsLoopback ip then (False, ''localhost/loopback address is blocked'')
             else if IsUnspecified ip then (False, ''unspecified address is blocked'')
             else if IsLinkLocalUnicast ip then (False, ''link-local address is blocked'')
             else if IsMulticast ip then (False, ''multicast address is blocked'')
             else if IsPrivate ip then (False, ''private network address is blocked (RFC1918)'')
             else if ipStr = ''169.254.169.254'' then (False, ''AWS metadata service IP is blocked'')
             else if ipStr = ''fd00:ec2::254'' then (False, ''GCP metadata service IPv6 is blocked'')
             else if To4 ip = None \<and> To16 ip \<noteq> None then
               (if HasPrefix ipStr ''::ffff:'' then
                  (case isUpstreamIPSafe (TrimPrefix ipStr ''::ffff:'') of
                     (safe, reason) \<Rightarrow>
                       if \<not> safe then (False, ''IPv4-mapped IPv6 address blocked: '' @ reason)
                       else checkDocumentationRanges ip)
                else checkDocumentationRanges ip)
             else checkDocumentationRanges ip))"
  by pat_completeness auto
termination
  by (relation "measure length") (auto simp: TrimPrefix_def HasPrefix_def prefix_def)

declare isUpstreamIPSafe.simps [simp del]

section \<open>The attribute extractor\<close>

text \<open>
  A \<^verbatim>\<open>structpb.Value\<close> is one of six kinds; only the string kind is read here, so
  the \<^verbatim>\<open>float64\<close> of a number is left out.  A \<^verbatim>\<open>structpb.Struct\<close> has the one
  field \<^verbatim>\<open>Fields map[string]*Value\<close>: the map can be nil, and so can each pointer in
  it.  The attribute bundle of a request is a \<^verbatim>\<open>map[string]*structpb.Struct\<close>.
\<close>

datatype pb_value =
    NullValue
  | NumberValue
  | StringValue string
  | BoolValue bool
  | StructValue "(string \<times> pb_value) list"
  | ListValue "pb_value list"

record pb_struct =
  Fields :: "(string \<rightharpoonup> pb_value option) option"

type_synonym attributes = "(string \<rightharpoonup> pb_struct option) option"

definition GetStringValue :: "pb_value \<Rightarrow> string" where
  "GetStringValue v = (case v of StringValue x \<Rightarrow> x | _ \<Rightarrow> [])"

text \<open>A Go index expression panics out of range; the panic is a value of the model.\<close>

datatype panic = IndexOutOfRange

definition index :: "'a list \<Rightarrow> nat \<Rightarrow> panic + 'a" where
  "index xs k = (if k < length xs then Inr (xs ! k) else Inl IndexOutOfRange)"

definition extractUpstreamIP :: "attributes \<Rightarrow> panic + string" where
  "extractUpstreamIP attrs =
     (case attrs of
        None \<Rightarrow> Inr []
      | Some m \<Rightarrow>
          (case m ''envoy.filters.http.ext_proc'' of
             None \<Rightarrow> Inr []
           | Some None \<Rightarrow> Inr []
           | Some (Some filterAttributes) \<Rightarrow>
               (case Fields filterAttributes of
                  None \<Rightarrow> Inr []
                | Some fieldMap \<Rightarrow>
                    (case fieldMap ''upstream.address'' of
                       None \<Rightarrow> Inr []
                     | Some None \<Rightarrow> Inr []
                     | Some (Some upstream) \<Rightarrow>
                         if GetStringValue upstream \<noteq> []
                         then index (Split (GetStringValue upstream) CHR '':'') 0
                         else Inr []))))"

section \<open>The protocol session\<close>

text \<open>
  The messages of the stream.  The payload of a request phase is never read by
  \<^verbatim>\<open>Process\<close>, so a request is its phase (the \<^verbatim>\<open>Request\<close> oneof, possibly unset)
  and its attributes.  A response is its \<^verbatim>\<open>Response\<close> oneof and its
  \<^verbatim>\<open>DynamicMetadata\<close>; the fields the code leaves at their zero value are left out.
\<close>

datatype request_oneof =
    ProcessingRequest_RequestHeaders
  | ProcessingRequest_ResponseHeaders
  | ProcessingRequest_RequestBody
  | ProcessingRequest_ResponseBody
  | ProcessingRequest_RequestTrailers
  | ProcessingRequest_ResponseTrailers
  | ProcessingRequest_unset

record ProcessingRequest =
  Request :: request_oneof
  Attributes :: attributes

datatype CommonResponse_ResponseStatus = CommonResponse_CONTINUE | CommonResponse_CONTINUE_AND_REPLACE

definition StatusCode_Forbidden :: nat where
  "StatusCode_Forbidden = 403"

datatype response_oneof =
    ProcessingResponse_ImmediateResponse (Status_Code: nat) (Body: string)
  | ProcessingResponse_RequestHeaders (Response_Status: CommonResponse_ResponseStatus)

record ProcessingResponse =
  Response :: response_oneof
  DynamicMetadata :: "pb_struct option"

text \<open>
  Lines 160 to 172 of \<^verbatim>\<open>Process\<close>: the verdict for the extracted address.  An
  empty address is denied without calling the classifier.
\<close>

definition verdict :: "string \<Rightarrow> bool \<times> string" where
  "verdict upstreamIP =
     (if upstreamIP \<noteq> [] then isUpstreamIPSafe upstreamIP
      else (False, ''unable to extract upstream IP address''))"

text \<open>
  The \<^verbatim>\<open>switch\<close> on the request's phase: the response \<open>resp\<close> it leaves.  The
  variable is a pointer that starts nil, and only the header phase assigns it.
\<close>

definition denyResponse :: "string \<Rightarrow> ProcessingResponse" where
  "denyResponse reason =
     \<lparr>Response = ProcessingResponse_ImmediateResponse StatusCode_Forbidden reason,
      DynamicMetadata = Some \<lparr>Fields = Some [''blocked'' \<mapsto> Some (BoolValue True),
                                                 ''reason'' \<mapsto> Some (StringValue reason)]\<rparr>\<rparr>"

definition continueResponse :: ProcessingResponse where
  "continueResponse =
     \<lparr>Response = ProcessingResponse_RequestHeaders CommonResponse_CONTINUE,
      DynamicMetadata = None\<rparr>"

definition buildResponse :: "request_oneof \<Rightarrow> bool \<Rightarrow> string \<Rightarrow> ProcessingResponse option" where
  "buildResponse v isSafe reason =
     (case v of
        ProcessingRequest_RequestHeaders \<Rightarrow>
          if \<not> isSafe then Some (denyResponse reason) else Some continueResponse
      | _ \<Rightarrow> None)"

text \<open>
  What a session does to the outside, in order: the calls of \<^verbatim>\<open>srv.Recv\<close> with their
  results, the calls of \<^verbatim>\<open>srv.Send\<close> with their argument (\<^term>\<open>None\<close> is the nil
  pointer), and the log lines.
\<close>

datatype recv_result = RecvMsg ProcessingRequest | RecvEOF | RecvErr string

datatype log_line =
    LogUpstreamIP string
  | LogBlocked string string
  | LogAllowed string
  | LogUnexpected request_oneof
  | LogSendError string

datatype event = Recv recv_result | Send "ProcessingResponse option" | Log log_line

text \<open>
  The body of the loop after a successful \<^verbatim>\<open>Recv\<close> (lines 159 to 218): the events
  it causes, given the error \<^verbatim>\<open>Send\<close> returns.  The \<^verbatim>\<open>Send\<close> of line 216 is
  after the \<^verbatim>\<open>switch\<close> and runs for every message.
\<close>

definition handleRequest :: "ProcessingRequest \<Rightarrow> string option \<Rightarrow> panic + event list" where
  "handleRequest req sendErr =
     (case extractUpstreamIP (Attributes req) of
        Inl p \<Rightarrow> Inl p
      | Inr upstreamIP \<Rightarrow>
          (case verdict upstreamIP of
             (isSafe, reason) \<Rightarrow>
               Inr ((if upstreamIP \<noteq> [] then [Log (LogUpstreamIP upstreamIP)] else [])
                    @ (case Request req of
                         ProcessingRequest_RequestHeaders \<Rightarrow>
                           if \<not> isSafe then [Log (LogBlocked upstreamIP reason)]
                           else [Log (LogAllowed upstreamIP)]
                       | v \<Rightarrow> [Log (LogUnexpected v)])
                    @ [Send (buildResponse (Request req) isSafe reason)]
                    @ (case sendErr of None \<Rightarrow> [] | Some err \<Rightarrow> [Log (LogSendError err)]))))"

text \<open>
  The stream as the session meets it, one entry for each turn of the loop: the error of
  the context if \<^verbatim>\<open>ctx.Done()\<close> is closed at the \<^verbatim>\<open>select\<close>, what \<^verbatim>\<open>Recv\<close>
  returns, and the error \<^verbatim>\<open>Send\<close> returns.  The code reads the context nowhere
  else: a cancellation that arrives while \<^verbatim>\<open>Recv\<close> blocks is the error that
  \<^verbatim>\<open>Recv\<close> returns, and one that arrives later in the turn is seen at the next
  \<^verbatim>\<open>select\<close>.
\<close>

record turn =
  ctxErr :: "string option"
  recvResult :: recv_result
  sendErr :: "string option"

datatype grpc_code = Unknown | Unimplemented

datatype go_error = ContextError string | StatusError grpc_code string

text \<open>
  How \<^verbatim>\<open>Process\<close> ends: it returns an error or nil, it panics, or it waits in
  \<^verbatim>\<open>Recv\<close> for ever because the stream has no further turn.
\<close>

datatype outcome = Returned "go_error option" | Panicked panic | Waiting

fun Process :: "turn list \<Rightarrow> event list \<times> outcome" where
  "Process [] = ([], Waiting)"
| "Process (t # ts) =
     (case ctxErr t of
        Some e \<Rightarrow> ([], Returned (Some (ContextError e)))
      | None \<Rightarrow>
          (case recvResult t of
             RecvEOF \<Rightarrow> ([Recv RecvEOF], Returned None)
           | RecvErr err \<Rightarrow>
               ([Recv (RecvErr err)],
                Returned (Some (StatusError Unknown (''cannot receive stream request: '' @ err))))
           | RecvMsg req \<Rightarrow>
               (case handleRequest req (sendErr t) of
                  Inl p \<Rightarrow> ([Recv (RecvMsg req)], Panicked p)
                | Inr evs \<Rightarrow>
                    (case Process ts of
                       (tr, out) \<Rightarrow> (Recv (RecvMsg req) # evs @ tr, out)))))"

subsection \<open>Observations of a session\<close>

text \<open>The arguments of the \<^verbatim>\<open>Send\<close> calls of a trace, in order.\<close>

fun sent :: "event list \<Rightarrow> ProcessingResponse option list" where
  "sent [] = []"
| "sent (Send r # tr) = r # sent tr"
| "sent (e # tr) = sent tr"

text \<open>The trace without its log lines: what crosses the stream.\<close>

definition wire :: "event list \<Rightarrow> event list" where
  "wire tr = filter (\<lambda>e. case e of Log l \<Rightarrow> False | _ \<Rightarrow> True) tr"

text \<open>
  A turn in which the context is live and \<^verbatim>\<open>Recv\<close> returns a message; the second
  component is what \<^verbatim>\<open>Send\<close> will return.
\<close>

definition messageTurn :: "ProcessingRequest \<times> string option \<Rightarrow> turn" where
  "messageTurn p = \<lparr>ctxErr = None, recvResult = RecvMsg (fst p), sendErr = snd p\<rparr>"

definition eofTurn :: turn where
  "eofTurn = \<lparr>ctxErr = None, recvResult = RecvEOF, sendErr = None\<rparr>"

definition canceledTurn :: "string \<Rightarrow> turn" where
  "canceledTurn e = \<lparr>ctxErr = Some e, recvResult = RecvEOF, sendErr = None\<rparr>"

subsection \<open>Inputs for the examples\<close>

text \<open>The attribute bundle Envoy attaches when the upstream address is \<open>addr\<close>.\<close>

definition upstreamAttributes :: "string \<Rightarrow> attributes" where
  "upstreamAttributes addr =
     Some [''envoy.filters.http.ext_proc'' \<mapsto>
             Some \<lparr>Fields = Some [''upstream.address'' \<mapsto> Some (StringValue addr)]\<rparr>]"

definition headersRequest :: "string \<Rightarrow> ProcessingRequest" where
  "headersRequest addr =
     \<lparr>Request = ProcessingRequest_RequestHeaders, Attributes = upstreamAttributes addr\<rparr>"

definition bodyRequest :: "string \<Rightarrow> ProcessingRequest" where
  "bodyRequest addr =
     \<lparr>Request = ProcessingRequest_RequestBody, Attributes = upstreamAttributes addr\<rparr>"


section \<open>Facts about the library functions\<close>

subsection \<open>Evaluation on literals\<close>

lemma replicate_numeral: "replicate (numeral k) x = x # replicate (pred_numeral k) x"
  by (simp add: numeral_eq_Suc)

lemmas parse_eval = parseIPv4Fields_def isDigit_def inRange_def ord_def digitVal_def isHexDigit_def
  hexVal_def parseIPv6_def ParseAddr_def ParseIP_def parseIPv4_def v4InV6Prefix_def Let_def zero16_def
  replicate_numeral parseIPv6_loop.simps

lemmas class_eval = IsLoopback_def IsUnspecified_def IsLinkLocalUnicast_def IsMulticast_def
  IsPrivate_def To4_def To16_def Equal_def IPv4len_def IPv6len_def isZeros_def
  IPv4zero_def IPv6unspecified_def IPv6loopback_def v4InV6Prefix_def zero16_def
  HasPrefix_def TrimPrefix_def checkDocumentationRanges_def inDocumentationRange_def Contains_def
  testNet1_def testNet2_def testNet3_def testNet6_def

lemma ParseIP_Nil: "ParseIP [] = None"
  by (simp add: ParseIP_def ParseAddr_def)

lemma ParseIP_aws:
  "ParseIP ''169.254.169.254'' = Some [0, 0, 0, 0, 0, 0, 0, 0, 0, 0, 255, 255, 169, 254, 169, 254]"
  by (simp add: parse_eval)

lemma ParseIP_gcp:
  "ParseIP ''fd00:ec2::254'' = Some [253, 0, 14, 194, 0, 0, 0, 0, 0, 0, 0, 0, 0, 0, 2, 84]"
  by (simp add: parse_eval)

lemma ParseIP_loopback:
  "ParseIP ''127.0.0.1'' = Some [0, 0, 0, 0, 0, 0, 0, 0, 0, 0, 255, 255, 127, 0, 0, 1]"
  by (simp add: parse_eval)

lemma ParseIP_public:
  "ParseIP ''8.8.8.8'' = Some [0, 0, 0, 0, 0, 0, 0, 0, 0, 0, 255, 255, 8, 8, 8, 8]"
  by (simp add: parse_eval)

lemma ParseIP_example:
  "ParseIP ''93.184.216.34'' = Some [0, 0, 0, 0, 0, 0, 0, 0, 0, 0, 255, 255, 93, 184, 216, 34]"
  by (simp add: parse_eval)

lemma ParseIP_private:
  "ParseIP ''192.168.1.1'' = Some [0, 0, 0, 0, 0, 0, 0, 0, 0, 0, 255, 255, 192, 168, 1, 1]"
  by (simp add: parse_eval)

lemma ParseIP_mapped_private:
  "ParseIP ''::ffff:10.0.0.5'' = Some [0, 0, 0, 0, 0, 0, 0, 0, 0, 0, 255, 255, 10, 0, 0, 5]"
  by (simp add: parse_eval)


lemma ParseIP_odd:
  "ParseIP ''::ffff:1:2:3'' = Some [0, 0, 0, 0, 0, 0, 0, 0, 255, 255, 0, 1, 0, 2, 0, 3]"
  by (simp add: parse_eval)

lemma ParseIP_short: "ParseIP ''1:2:3'' = None"
  by (simp add: parse_eval)

lemma ParseIP_bracket: "ParseIP ''[2001'' = None"
  by (simp add: parse_eval)

lemma aws_link_local: "ParseIP ''169.254.169.254'' = Some ip \<Longrightarrow> IsLinkLocalUnicast ip"
  by (auto simp: ParseIP_aws class_eval)

lemma gcp_private: "ParseIP ''fd00:ec2::254'' = Some ip \<Longrightarrow> IsPrivate ip"
  by (auto simp: ParseIP_gcp class_eval)

subsection \<open>The shape of an IPv4 literal\<close>


lemma isDigit_not_sep: "isDigit c \<Longrightarrow> c \<noteq> CHR ''.'' \<and> c \<noteq> CHR '':'' \<and> c \<noteq> CHR ''%''"
  by (auto simp: isDigit_def inRange_def ord_def)

lemma isDigit_isHexDigit: "isDigit c \<Longrightarrow> isHexDigit c"
  by (simp add: isDigit_def isHexDigit_def)

lemma hexVal_less: "isHexDigit c \<Longrightarrow> hexVal c < 16"
  by (auto simp: isHexDigit_def hexVal_def inRange_def ord_def)

lemma v4_shape:
  "parseIPv4Fields_loop prev s val pos digLen fs = Some f \<Longrightarrow> pos < 3 \<Longrightarrow>
   \<exists>ds rest. s = ds @ CHR ''.'' # rest \<and> (\<forall>c \<in> set ds. isDigit c)"
proof (induction s arbitrary: prev val digLen)
  case Nil
  then show ?case by simp
next
  case (Cons c cs)
  show ?case
  proof (cases "isDigit c")
    case True
    with Cons.prems have "parseIPv4Fields_loop (Some c) cs (val * 10 + digitVal c) pos (digLen + 1) fs = Some f"
      by (simp split: if_splits)
    from Cons.IH [OF this Cons.prems(2)] obtain ds rest
      where "cs = ds @ CHR ''.'' # rest" "\<forall>c \<in> set ds. isDigit c" by blast
    with True have "c # cs = (c # ds) @ CHR ''.'' # rest \<and> (\<forall>x \<in> set (c # ds). isDigit x)" by simp
    then show ?thesis by blast
  next
    case False
    with Cons.prems have "c = CHR ''.''" by (simp split: if_splits)
    then have "c # cs = [] @ CHR ''.'' # cs \<and> (\<forall>x \<in> set []. isDigit x)" by simp
    then show ?thesis by blast
  qed
qed

lemma v4_digits_bound:
  "parseIPv4Fields_loop prev (ds @ rest) val pos digLen fs = Some f \<Longrightarrow> \<forall>c \<in> set ds. isDigit c \<Longrightarrow>
   ds \<noteq> [] \<Longrightarrow> 1 \<le> val \<Longrightarrow> val * 10 ^ length ds \<le> 255"
proof (induction ds arbitrary: prev val digLen)
  case Nil
  then show ?case by simp
next
  case (Cons d ds)
  from Cons.prems have le: "val * 10 + digitVal d \<le> 255"
    and rec: "parseIPv4Fields_loop (Some d) (ds @ rest) (val * 10 + digitVal d) pos (digLen + 1) fs = Some f"
    by (auto split: if_splits)
  show ?case
  proof (cases "ds = []")
    case True
    with le show ?thesis by simp
  next
    case False
    have "(val * 10 + digitVal d) * 10 ^ length ds \<le> 255"
      using Cons.IH [OF rec] Cons.prems(2,4) False by simp
    moreover have "val * 10 * 10 ^ length ds \<le> (val * 10 + digitVal d) * 10 ^ length ds"
      by (rule mult_le_mono1) simp
    moreover have "val * 10 ^ length (d # ds) = val * 10 * 10 ^ length ds" by simp
    ultimately show ?thesis by (simp only: le_trans)
  qed
qed

lemma v4_first_octet:
  assumes "parseIPv4Fields_loop None s 0 0 0 fs = Some f"
  shows "\<exists>ds rest. s = ds @ CHR ''.'' # rest \<and> (\<forall>c \<in> set ds. isDigit c) \<and> ds \<noteq> [] \<and> length ds \<le> 3"
proof -
  from v4_shape [OF assms] obtain ds rest
    where s: "s = ds @ CHR ''.'' # rest" and dig: "\<forall>c \<in> set ds. isDigit c" by auto
  have ne: "ds \<noteq> []"
  proof
    assume "ds = []"
    with s assms show False by (simp add: isDigit_def inRange_def ord_def)
  qed
  then obtain d ds' where ds: "ds = d # ds'" by (cases ds) auto
  with dig have d: "isDigit d" by simp
  from assms s ds d
  have rec: "parseIPv4Fields_loop (Some d) (ds' @ CHR ''.'' # rest) (digitVal d) 0 1 fs = Some f"
    by (simp split: if_splits)
  have "length ds' \<le> 2"
  proof (cases "ds' = []")
    case True
    then show ?thesis by simp
  next
    case False
    then obtain e es where ds': "ds' = e # es" by (cases ds') auto
    with dig ds have e: "isDigit e" by simp
    from rec ds' e have "digitVal d \<noteq> 0" by (auto split: if_splits)
    then have "1 \<le> digitVal d" by simp
    from v4_digits_bound [OF rec _ False this] dig ds
    have b: "digitVal d * 10 ^ length ds' \<le> 255" by simp
    show ?thesis
    proof (rule ccontr)
      assume "\<not> length ds' \<le> 2"
      then have "3 \<le> length ds'" by simp
      then have "(10::nat) ^ 3 \<le> 10 ^ length ds'" by (intro power_increasing) simp_all
      then have "1000 \<le> digitVal d * 10 ^ length ds'"
        using \<open>1 \<le> digitVal d\<close> by (simp add: mult_le_mono [of 1 "digitVal d" 1000 "10 ^ length ds'", simplified])
      with b show False by simp
    qed
  qed
  with ds have "length ds \<le> 3" by simp
  with s dig ne show ?thesis by blast
qed

lemma v4_chars:
  "parseIPv4Fields_loop prev s val pos digLen fs = Some f \<Longrightarrow> \<forall>c \<in> set s. isDigit c \<or> c = CHR ''.''"
  by (induction s arbitrary: prev val pos digLen fs) (auto split: if_splits)

lemma v4_length:
  "parseIPv4Fields_loop prev s val pos digLen fs = Some f \<Longrightarrow> length f = length fs"
  by (induction s arbitrary: prev val pos digLen fs) (auto split: if_splits)

lemma hexGroup_digits:
  "\<forall>c \<in> set ds. isHexDigit c \<Longrightarrow> off + length ds \<le> 4 \<Longrightarrow> acc < 16 ^ off \<Longrightarrow> \<not> isHexDigit r \<Longrightarrow>
   \<exists>acc'. hexGroup_loop (ds @ r # rest) off acc = Some (off + length ds, acc', r # rest)"
proof (induction ds arbitrary: off acc)
  case Nil
  then show ?case by simp
next
  case (Cons d ds)
  from Cons.prems have d: "isHexDigit d" and off: "off \<le> 3" by auto
  have "acc * 16 + hexVal d < 16 * 16 ^ off"
    using hexVal_less [OF d] Cons.prems(3) by simp
  then have lt: "acc * 16 + hexVal d < 16 ^ (off + 1)" by simp
  also have "(16::nat) ^ (off + 1) \<le> 16 ^ 4" using off by (intro power_increasing) simp_all
  finally have "acc * 16 + hexVal d \<le> 65535" by simp
  moreover from Cons.IH [of "off + 1" "acc * 16 + hexVal d"] Cons.prems lt
  obtain acc' where "hexGroup_loop (ds @ r # rest) (off + 1) (acc * 16 + hexVal d)
      = Some (off + 1 + length ds, acc', r # rest)" by auto
  ultimately show ?case using d off by simp
qed


lemma ParseAddr_scan_digits:
  "\<forall>c \<in> set ds. isDigit c \<Longrightarrow>
   ParseAddr_scan s0 (ds @ CHR ''.'' # rest) = (case parseIPv4 s0 of None \<Rightarrow> None | Some ip \<Rightarrow> Some (ip, []))"
  by (induction ds) (auto dest: isDigit_not_sep)

lemma ParseIP_v4:
  assumes "parseIPv4Fields s = Some f"
  shows "ParseIP s = Some (v4InV6Prefix @ f)"
proof -
  from assms have "parseIPv4Fields_loop None s 0 0 0 [0, 0, 0, 0] = Some f"
    by (simp add: parseIPv4Fields_def)
  from v4_first_octet [OF this] obtain ds rest
    where "s = ds @ CHR ''.'' # rest" "\<forall>c \<in> set ds. isDigit c" by blast
  then have "ParseAddr_scan s s = (case parseIPv4 s of None \<Rightarrow> None | Some ip \<Rightarrow> Some (ip, []))"
    using ParseAddr_scan_digits [of ds s rest] by simp
  with assms show ?thesis by (simp add: ParseIP_def ParseAddr_def parseIPv4_def)
qed

lemma parseIPv6_loop_mapped:
  assumes "parseIPv4Fields s = Some f"
  shows "parseIPv6_loop (''ffff:'' @ s) 0 zero16 (Some 0)
    = Some ([], 6, [0xff, 0xff] @ f @ [0, 0, 0, 0, 0, 0, 0, 0, 0, 0], Some 0)"
proof -
  from assms have p: "parseIPv4Fields_loop None s 0 0 0 [0, 0, 0, 0] = Some f"
    by (simp add: parseIPv4Fields_def)
  from v4_first_octet [OF this] obtain ds rest
    where s: "s = ds @ CHR ''.'' # rest" and dig: "\<forall>c \<in> set ds. isDigit c"
      and ne: "ds \<noteq> []" and len: "length ds \<le> 3" by blast
  from ne obtain d ds' where ds: "ds = d # ds'" by (cases ds) auto
  with dig have d: "isDigit d" by simp
  then have dsep: "d \<noteq> CHR '':''" using isDigit_not_sep by blast
  have hex: "\<forall>c \<in> set ds. isHexDigit c" using dig isDigit_isHexDigit by blast
  have nothex: "\<not> isHexDigit CHR ''.''" by (simp add: isHexDigit_def inRange_def ord_def)
  from hexGroup_digits [OF hex _ _ nothex, of 0 0 rest] len s
  obtain acc' where g: "hexGroup_loop s 0 0 = Some (length ds, acc', CHR ''.'' # rest)" by auto
  have second: "parseIPv6_loop s (0 + 2) (zero16[0 := of_nat (65535 div 256), 0 + 1 := of_nat 65535]) (Some 0)
    = Some ([], 6, [0xff, 0xff] @ f @ [0, 0, 0, 0, 0, 0, 0, 0, 0, 0], Some 0)"
    using g ne p by (subst parseIPv6_loop.simps) (simp add: zero16_def)
  have g1: "hexGroup_loop (''ffff:'' @ s) 0 0 = Some (4, 65535, CHR '':'' # s)"
    by (simp add: isHexDigit_def inRange_def ord_def hexVal_def)
  have sne: "s \<noteq> []" "hd s = d" "tl (CHR '':'' # s) = s" using s ds by simp_all
  show ?thesis
    using g1 sne dsep second
    by (subst parseIPv6_loop.simps) (simp add: zero16_def del: append.simps)
qed

lemma no_zone: "\<forall>c \<in> set s. isDigit c \<or> c = CHR ''.'' \<Longrightarrow> CHR ''%'' \<notin> set s"
  by (auto simp: isDigit_def inRange_def ord_def)

lemma ParseIP_mapped:
  assumes "parseIPv4Fields s = Some f"
  shows "ParseIP (''::ffff:'' @ s) = Some (v4InV6Prefix @ f)"
proof -
  from assms have p: "parseIPv4Fields_loop None s 0 0 0 [0, 0, 0, 0] = Some f"
    by (simp add: parseIPv4Fields_def)
  have nz: "CHR ''%'' \<notin> set s" using v4_chars [OF p] by (rule no_zone)
  from v4_length [OF p] have lf: "length f = 4" by simp
  have tw: "takeWhile (\<lambda>c. c \<noteq> CHR ''%'') (''::ffff:'' @ s) = ''::ffff:'' @ s"
    using nz by (auto simp: takeWhile_eq_all_conv)
  have nzz: "CHR ''%'' \<notin> set (''::ffff:'' @ s)" using nz by simp
  have "parseIPv6 (''::ffff:'' @ s) = Some (v4InV6Prefix @ f, [])"
    unfolding parseIPv6_def tw Let_def
    using nzz parseIPv6_loop_mapped [OF assms] lf
    by (simp add: v4InV6Prefix_def numeral_eq_Suc del: append.simps) (simp add: numeral_eq_Suc)
  then show ?thesis by (simp add: ParseIP_def ParseAddr_def)
qed


subsection \<open>Literals with a leading ellipsis\<close>





section \<open>Facts about the classifier\<close>

lemma isUpstreamIPSafe_empty: "isUpstreamIPSafe [] = (False, ''empty IP address'')"
  by (simp add: isUpstreamIPSafe.simps)

lemma isUpstreamIPSafe_invalid: "s \<noteq> [] \<Longrightarrow> ParseIP s = None \<Longrightarrow> isUpstreamIPSafe s = (False, ''invalid IP address'')"
  by (simp add: isUpstreamIPSafe.simps)

lemma To4_mapped: "length f = 4 \<Longrightarrow> To4 (v4InV6Prefix @ f) = Some f"
  by (simp add: To4_def v4InV6Prefix_def IPv4len_def IPv6len_def isZeros_def)

text \<open>
  For an address in 4-byte or IPv4-mapped form the block for IPv4-mapped literals is
  skipped, and the two comparisons with the metadata literals never decide: the
  literals are caught by the link-local and the private check before them.
\<close>

lemma isUpstreamIPSafe_v4:
  assumes "ParseIP str = Some ip" and "To4 ip \<noteq> None"
  shows "isUpstreamIPSafe str =
     (if IsLoopback ip then (False, ''localhost/loopback address is blocked'')
      else if IsUnspecified ip then (False, ''unspecified address is blocked'')
      else if IsLinkLocalUnicast ip then (False, ''link-local address is blocked'')
      else if IsMulticast ip then (False, ''multicast address is blocked'')
      else if IsPrivate ip then (False, ''private network address is blocked (RFC1918)'')
      else checkDocumentationRanges ip)"
proof -
  from assms(1) have ne: "str \<noteq> []" using ParseIP_Nil by auto
  have aws: "str = ''169.254.169.254'' \<Longrightarrow> IsLinkLocalUnicast ip"
    using assms(1) aws_link_local by blast
  have gcp: "str = ''fd00:ec2::254'' \<Longrightarrow> IsPrivate ip"
    using assms(1) gcp_private by blast
  show ?thesis
    using assms ne aws gcp by (subst isUpstreamIPSafe.simps) auto
qed

lemma isUpstreamIPSafe_mapped:
  assumes "parseIPv4Fields s = Some f"
  shows "isUpstreamIPSafe (''::ffff:'' @ s) = isUpstreamIPSafe s"
proof -
  from assms have "length f = 4" using v4_length [of None s 0 0 0 "[0, 0, 0, 0]" f]
    by (simp add: parseIPv4Fields_def)
  then have t4: "To4 (v4InV6Prefix @ f) \<noteq> None" using To4_mapped by simp
  show ?thesis
    using isUpstreamIPSafe_v4 [OF ParseIP_mapped [OF assms] t4]
      isUpstreamIPSafe_v4 [OF ParseIP_v4 [OF assms] t4] by simp
qed

lemma safe_loopback: "isUpstreamIPSafe ''127.0.0.1'' = (False, ''localhost/loopback address is blocked'')"
  by (subst isUpstreamIPSafe.simps) (simp add: ParseIP_loopback class_eval)

lemma safe_public: "isUpstreamIPSafe ''8.8.8.8'' = (True, [])"
  by (subst isUpstreamIPSafe.simps) (simp add: ParseIP_public class_eval)

lemma safe_example: "isUpstreamIPSafe ''93.184.216.34'' = (True, [])"
  by (subst isUpstreamIPSafe.simps) (simp add: ParseIP_example class_eval)

lemma safe_private: "isUpstreamIPSafe ''192.168.1.1'' = (False, ''private network address is blocked (RFC1918)'')"
  by (subst isUpstreamIPSafe.simps) (simp add: ParseIP_private class_eval)

lemma safe_short: "isUpstreamIPSafe ''1:2:3'' = (False, ''invalid IP address'')"
  by (simp add: isUpstreamIPSafe_invalid ParseIP_short)

lemma safe_bracket: "isUpstreamIPSafe ''[2001'' = (False, ''invalid IP address'')"
  by (simp add: isUpstreamIPSafe_invalid ParseIP_bracket)

text \<open>
  The block for IPv4-mapped addresses tests the literal, not the address: a literal that
  starts with \<open>::ffff:\<close> and parses to an address that is not IPv4-mapped (an address
  of the reserved block \<open>::/8\<close>) is denied when its rest is not a safe address.
\<close>

lemma reserved_prefix_literal:
  "isUpstreamIPSafe ''::ffff:1:2:3'' = (False, ''IPv4-mapped IPv6 address blocked: invalid IP address'')"
  by (subst isUpstreamIPSafe.simps) (simp add: ParseIP_odd safe_short class_eval)



text \<open>
  Claim C3.  For every IPv4 literal \<open>a.b.c.d\<close> (a literal \<^verbatim>\<open>parseIPv4\<close> accepts),
  the IPv4-mapped literal \<open>::ffff:a.b.c.d\<close> gets the same allowed flag as \<open>a.b.c.d\<close>.
\<close>

theorem mapped_same_verdict:
  assumes "parseIPv4 s = Some ip"
  shows "fst (isUpstreamIPSafe (''::ffff:'' @ s)) = fst (isUpstreamIPSafe s)"
proof -
  from assms obtain f where "parseIPv4Fields s = Some f"
    by (auto simp: parseIPv4_def split: option.splits)
  then have "isUpstreamIPSafe (''::ffff:'' @ s) = isUpstreamIPSafe s"
    by (rule isUpstreamIPSafe_mapped)
  then show ?thesis by (rule arg_cong)
qed

theorem mapped_same_verdict_witness:
  "parseIPv4 ''10.0.0.5'' = Some [0, 0, 0, 0, 0, 0, 0, 0, 0, 0, 255, 255, 10, 0, 0, 5]
   \<and> fst (isUpstreamIPSafe ''::ffff:10.0.0.5'') = fst (isUpstreamIPSafe ''10.0.0.5'')"
proof -
  have p: "parseIPv4 ''10.0.0.5'' = Some [0, 0, 0, 0, 0, 0, 0, 0, 0, 0, 255, 255, 10, 0, 0, 5]"
    by (simp add: parse_eval)
  from mapped_same_verdict [OF p] p show ?thesis by simp
qed

text \<open>
  Claim C4 (the code differs).  Both metadata literals are denied, but by the link-local
  and the private check, which come first; neither reason names a metadata service.
\<close>

theorem metadata_reasons:
  "isUpstreamIPSafe ''169.254.169.254'' = (False, ''link-local address is blocked'')
   \<and> \<not> sublist ''metadata'' (snd (isUpstreamIPSafe ''169.254.169.254''))
   \<and> isUpstreamIPSafe ''fd00:ec2::254'' = (False, ''private network address is blocked (RFC1918)'')"
proof -
  have a: "isUpstreamIPSafe ''169.254.169.254'' = (False, ''link-local address is blocked'')"
    by (subst isUpstreamIPSafe.simps) (simp add: ParseIP_aws class_eval)
  have b: "isUpstreamIPSafe ''fd00:ec2::254'' = (False, ''private network address is blocked (RFC1918)'')"
    by (subst isUpstreamIPSafe.simps) (simp add: ParseIP_gcp class_eval)
  have c: "\<not> sublist ''metadata'' ''link-local address is blocked''"
    by (simp add: sublist_Cons_right)
  from a b c show ?thesis by simp
qed

text \<open>
  Claim C8 (the code differs).  The IPv4-mapped literal \<open>::ffff:10.0.0.5\<close> is denied by
  the private-range check on its own address; the reason does not carry the prefix of
  the block for IPv4-mapped literals, which is never entered for it.
\<close>

theorem mapped_reason_unprefixed:
  "isUpstreamIPSafe ''::ffff:10.0.0.5'' = (False, ''private network address is blocked (RFC1918)'')
   \<and> \<not> prefix ''IPv4-mapped IPv6 address blocked: '' (snd (isUpstreamIPSafe ''::ffff:10.0.0.5''))"
proof -
  have "isUpstreamIPSafe ''::ffff:10.0.0.5'' = (False, ''private network address is blocked (RFC1918)'')"
    by (subst isUpstreamIPSafe.simps) (simp add: ParseIP_mapped_private class_eval)
  then show ?thesis by simp
qed


section \<open>Facts about the attribute extractor\<close>

lemma Split_not_Nil: "Split s sep \<noteq> []"
  by (induction s) (auto split: list.splits)

lemma Split_first: "Split s sep ! 0 = takeWhile (\<lambda>c. c \<noteq> sep) s"
  by (induction s) (auto split: list.splits simp: Split_not_Nil)

lemma index_Split: "index (Split s sep) 0 = Inr (takeWhile (\<lambda>c. c \<noteq> sep) s)"
  using Split_not_Nil [of s sep] by (simp add: index_def Split_first)

text \<open>The extractor never panics: the index expression is always in range.\<close>

lemma extractUpstreamIP_returns: "\<exists>ip. extractUpstreamIP attrs = Inr ip"
  by (simp add: extractUpstreamIP_def index_Split split: option.splits)

text \<open>What it returns for a stored address: the bytes before the first colon.\<close>

lemma extractUpstreamIP_stored:
  "extractUpstreamIP (upstreamAttributes addr) = Inr (takeWhile (\<lambda>c. c \<noteq> CHR '':'') addr)"
  by (simp add: extractUpstreamIP_def upstreamAttributes_def index_Split GetStringValue_def)

lemma extractUpstreamIP_absent:
  "extractUpstreamIP None = Inr []"
  "m ''envoy.filters.http.ext_proc'' = None \<Longrightarrow> extractUpstreamIP (Some m) = Inr []"
  "m ''envoy.filters.http.ext_proc'' = Some (Some \<lparr>Fields = Some fm\<rparr>) \<Longrightarrow>
     fm ''upstream.address'' = None \<Longrightarrow> extractUpstreamIP (Some m) = Inr []"
  "extractUpstreamIP (upstreamAttributes []) = Inr []"
  by (simp_all add: extractUpstreamIP_def upstreamAttributes_def GetStringValue_def)

text \<open>
  No address with a colon leaves the extractor, so no IPv6 literal ever reaches the
  classifier from \<^verbatim>\<open>Process\<close>.
\<close>

lemma extractUpstreamIP_no_colon: "extractUpstreamIP attrs = Inr ip \<Longrightarrow> CHR '':'' \<notin> set ip"
  by (auto simp: extractUpstreamIP_def index_Split split: option.splits if_splits dest: set_takeWhileD)

text \<open>
  Claim C5 (the code differs).  For the upstream socket address \<open>[2001:db8::1]:443\<close>, of
  the form host:port, the extractor returns \<open>[2001\<close>, the bytes before the first colon,
  not the host; the classifier then finds it invalid.
\<close>

theorem extract_ipv6_host:
  "extractUpstreamIP (upstreamAttributes ''[2001:db8::1]:443'') = Inr ''[2001''
   \<and> isUpstreamIPSafe ''[2001'' = (False, ''invalid IP address'')
   \<and> extractUpstreamIP (upstreamAttributes ''10.0.0.5:80'') = Inr ''10.0.0.5''"
  by (simp add: extractUpstreamIP_stored safe_bracket)

section \<open>Facts about the session\<close>

lemma sent_append: "sent (xs @ ys) = sent xs @ sent ys"
  by (induction xs rule: sent.induct) auto

lemma wire_append: "wire (xs @ ys) = wire xs @ wire ys"
  by (simp add: wire_def)

lemma handleRequest_returns: "\<exists>evs. handleRequest req se = Inr evs"
  using extractUpstreamIP_returns [of "Attributes req"]
  by (auto simp: handleRequest_def split: prod.splits)

lemma fst_verdict: "fst (verdict ip) = fst (isUpstreamIPSafe ip)"
  by (simp add: verdict_def isUpstreamIPSafe_empty)

lemma wire_handleRequest:
  "handleRequest req se = Inr evs \<Longrightarrow>
   wire evs = [Send (buildResponse (Request req) (fst (verdict (projr (extractUpstreamIP (Attributes req)))))
       (snd (verdict (projr (extractUpstreamIP (Attributes req))))))]"
  by (auto simp: handleRequest_def wire_def split: sum.splits prod.splits request_oneof.splits option.splits)

lemma sent_handleRequest:
  "handleRequest req se = Inr evs \<Longrightarrow>
   sent evs = [buildResponse (Request req) (fst (verdict (projr (extractUpstreamIP (Attributes req)))))
       (snd (verdict (projr (extractUpstreamIP (Attributes req)))))]"
  by (auto simp: handleRequest_def sent_append split: sum.splits prod.splits request_oneof.splits option.splits)

lemma Process_message:
  "ctxErr t = None \<Longrightarrow> recvResult t = RecvMsg req \<Longrightarrow>
   Process (t # ts) =
     (Recv (RecvMsg req) # projr (handleRequest req (sendErr t)) @ fst (Process ts), snd (Process ts))"
  using handleRequest_returns [of req "sendErr t"] by (auto split: prod.splits)

lemma extract_private: "extractUpstreamIP (upstreamAttributes ''192.168.1.1:80'') = Inr ''192.168.1.1''"
  by (simp add: extractUpstreamIP_stored)

lemma extract_example: "extractUpstreamIP (upstreamAttributes ''93.184.216.34:443'') = Inr ''93.184.216.34''"
  by (simp add: extractUpstreamIP_stored)

text \<open>
  Claim C7.  For a header-phase request whose extracted address is empty or classified
  unsafe, the session sends one response: an ImmediateResponse with status code
  Forbidden (403) and the deny reason as body, whose dynamic metadata has
  \<open>blocked\<close> = true and \<open>reason\<close> = the deny reason.  When the extracted address is
  empty, the verdict is a deny whose reason contains \<open>unable to extract\<close>.
\<close>

theorem deny_response:
  assumes "Request req = ProcessingRequest_RequestHeaders"
    and "extractUpstreamIP (Attributes req) = Inr ip"
    and "ip = [] \<or> \<not> fst (isUpstreamIPSafe ip)"
  shows "\<exists>reason evs m. verdict ip = (False, reason) \<and> handleRequest req se = Inr evs
     \<and> sent evs = [Some \<lparr>Response = ProcessingResponse_ImmediateResponse 403 reason,
                         DynamicMetadata = Some \<lparr>Fields = Some m\<rparr>\<rparr>]
     \<and> StatusCode_Forbidden = 403
     \<and> m ''blocked'' = Some (Some (BoolValue True))
     \<and> m ''reason'' = Some (Some (StringValue reason))
     \<and> (ip = [] \<longrightarrow> sublist ''unable to extract'' reason)"
proof -
  obtain safe reason where v: "verdict ip = (safe, reason)" by (cases "verdict ip")
  from assms(3) have "\<not> fst (verdict ip)" by (auto simp: fst_verdict isUpstreamIPSafe_empty)
  with v have safe: "\<not> safe" by simp
  have r: "ip = [] \<Longrightarrow> reason = ''unable to extract'' @ '' upstream IP address''"
    using v by (simp add: verdict_def)
  have "sent (projr (handleRequest req se)) = [Some (denyResponse reason)]"
    using assms(1,2) v safe
    by (simp add: handleRequest_def sent_append buildResponse_def split: option.splits)
  moreover obtain evs where "handleRequest req se = Inr evs" using handleRequest_returns by blast
  ultimately show ?thesis using v safe r
    by (auto simp: denyResponse_def StatusCode_Forbidden_def simp del: append.simps)
qed

theorem deny_response_witness:
  "(\<exists>evs m. handleRequest (headersRequest ''192.168.1.1:80'') None = Inr evs
     \<and> sent evs = [Some \<lparr>Response = ProcessingResponse_ImmediateResponse 403
                            ''private network address is blocked (RFC1918)'',
                         DynamicMetadata = Some \<lparr>Fields = Some m\<rparr>\<rparr>]
     \<and> m ''blocked'' = Some (Some (BoolValue True))
     \<and> m ''reason'' = Some (Some (StringValue ''private network address is blocked (RFC1918)'')))
   \<and> (\<exists>reason evs m. verdict [] = (False, reason)
     \<and> handleRequest \<lparr>Request = ProcessingRequest_RequestHeaders, Attributes = None\<rparr> None = Inr evs
     \<and> sent evs = [Some \<lparr>Response = ProcessingResponse_ImmediateResponse 403 reason,
                         DynamicMetadata = Some \<lparr>Fields = Some m\<rparr>\<rparr>]
     \<and> sublist ''unable to extract'' reason)"
proof -
  have v: "verdict ''192.168.1.1'' = (False, ''private network address is blocked (RFC1918)'')"
    by (simp add: verdict_def safe_private)
  have a: "\<exists>reason evs m. verdict ''192.168.1.1'' = (False, reason)
     \<and> handleRequest (headersRequest ''192.168.1.1:80'') None = Inr evs
     \<and> sent evs = [Some \<lparr>Response = ProcessingResponse_ImmediateResponse 403 reason,
                         DynamicMetadata = Some \<lparr>Fields = Some m\<rparr>\<rparr>]
     \<and> StatusCode_Forbidden = 403
     \<and> m ''blocked'' = Some (Some (BoolValue True))
     \<and> m ''reason'' = Some (Some (StringValue reason))
     \<and> (''192.168.1.1'' = [] \<longrightarrow> sublist ''unable to extract'' reason)"
    by (rule deny_response) (simp_all add: headersRequest_def extract_private safe_private)
  have b: "\<exists>reason evs m. verdict [] = (False, reason)
     \<and> handleRequest \<lparr>Request = ProcessingRequest_RequestHeaders, Attributes = None\<rparr> None = Inr evs
     \<and> sent evs = [Some \<lparr>Response = ProcessingResponse_ImmediateResponse 403 reason,
                         DynamicMetadata = Some \<lparr>Fields = Some m\<rparr>\<rparr>]
     \<and> StatusCode_Forbidden = 403
     \<and> m ''blocked'' = Some (Some (BoolValue True))
     \<and> m ''reason'' = Some (Some (StringValue reason))
     \<and> (([]::string) = [] \<longrightarrow> sublist ''unable to extract'' reason)"
    using deny_response [of "\<lparr>Request = ProcessingRequest_RequestHeaders, Attributes = None\<rparr>" "[]" None]
    by (simp add: extractUpstreamIP_def)
  from a v have a': "\<exists>evs m. handleRequest (headersRequest ''192.168.1.1:80'') None = Inr evs
     \<and> sent evs = [Some \<lparr>Response = ProcessingResponse_ImmediateResponse 403
                            ''private network address is blocked (RFC1918)'',
                         DynamicMetadata = Some \<lparr>Fields = Some m\<rparr>\<rparr>]
     \<and> m ''blocked'' = Some (Some (BoolValue True))
     \<and> m ''reason'' = Some (Some (StringValue ''private network address is blocked (RFC1918)''))"
    by (simp) blast
  from b have b': "\<exists>reason evs m. verdict [] = (False, reason)
     \<and> handleRequest \<lparr>Request = ProcessingRequest_RequestHeaders, Attributes = None\<rparr> None = Inr evs
     \<and> sent evs = [Some \<lparr>Response = ProcessingResponse_ImmediateResponse 403 reason,
                         DynamicMetadata = Some \<lparr>Fields = Some m\<rparr>\<rparr>]
     \<and> sublist ''unable to extract'' reason"
    by blast
  from a' b' show ?thesis by (rule conjI)
qed


text \<open>
  Claim C10.  For a header-phase request whose extracted address is classified safe, the
  one response sent is a RequestHeaders response with status CONTINUE and without
  dynamic metadata.  Whatever the request, a response that is sent with dynamic metadata
  is an ImmediateResponse.
\<close>

theorem continue_response:
  "(Request req = ProcessingRequest_RequestHeaders \<and> extractUpstreamIP (Attributes req) = Inr ip
      \<and> ip \<noteq> [] \<and> fst (isUpstreamIPSafe ip)
    \<longrightarrow> (\<exists>evs. handleRequest req se = Inr evs
          \<and> sent evs = [Some \<lparr>Response = ProcessingResponse_RequestHeaders CommonResponse_CONTINUE,
                              DynamicMetadata = None\<rparr>]))
   \<and> (\<forall>evs r. handleRequest req' se' = Inr evs \<and> Some r \<in> set (sent evs) \<and> DynamicMetadata r \<noteq> None
        \<longrightarrow> (\<exists>code body. Response r = ProcessingResponse_ImmediateResponse code body))"
proof -
  have allow: "\<exists>evs. handleRequest req se = Inr evs
          \<and> sent evs = [Some \<lparr>Response = ProcessingResponse_RequestHeaders CommonResponse_CONTINUE,
                              DynamicMetadata = None\<rparr>]"
    if a: "Request req = ProcessingRequest_RequestHeaders \<and> extractUpstreamIP (Attributes req) = Inr ip
      \<and> ip \<noteq> [] \<and> fst (isUpstreamIPSafe ip)"
  proof -
    obtain evs where e: "handleRequest req se = Inr evs" using handleRequest_returns by blast
    from a have "fst (verdict ip)" by (simp add: fst_verdict)
    with a have "sent evs = [Some continueResponse]"
      using sent_handleRequest [OF e] by (simp add: buildResponse_def)
    with e show ?thesis by (auto simp: continueResponse_def)
  qed
  have only: "\<exists>code body. Response r = ProcessingResponse_ImmediateResponse code body"
    if "handleRequest req' se' = Inr evs \<and> Some r \<in> set (sent evs) \<and> DynamicMetadata r \<noteq> None"
    for evs r
    using that sent_handleRequest [of req' se' evs]
    by (auto simp: buildResponse_def denyResponse_def continueResponse_def
        split: request_oneof.splits if_splits)
  from allow only show ?thesis by blast
qed

theorem continue_response_witness:
  "\<exists>evs. handleRequest (headersRequest ''93.184.216.34:443'') None = Inr evs
     \<and> sent evs = [Some \<lparr>Response = ProcessingResponse_RequestHeaders CommonResponse_CONTINUE,
                         DynamicMetadata = None\<rparr>]
     \<and> (\<forall>r. Some r \<in> set (sent evs) \<longrightarrow> DynamicMetadata r = None)"
proof -
  have "Request (headersRequest ''93.184.216.34:443'') = ProcessingRequest_RequestHeaders
      \<and> extractUpstreamIP (Attributes (headersRequest ''93.184.216.34:443'')) = Inr ''93.184.216.34''
      \<and> ''93.184.216.34'' \<noteq> [] \<and> fst (isUpstreamIPSafe ''93.184.216.34'')"
    by (simp add: headersRequest_def extract_example safe_example)
  with continue_response [of "headersRequest ''93.184.216.34:443''" "''93.184.216.34''" None]
  obtain evs where "handleRequest (headersRequest ''93.184.216.34:443'') None = Inr evs"
    "sent evs = [Some \<lparr>Response = ProcessingResponse_RequestHeaders CommonResponse_CONTINUE,
                         DynamicMetadata = None\<rparr>]" by blast
  then show ?thesis by auto
qed

text \<open>
  Claim C2.  On a stream of N header-phase requests followed by the end of the stream,
  with a live context, the session returns nil and calls \<^verbatim>\<open>Send\<close> exactly N times.
  What crosses the stream is, for each request in order, its \<^verbatim>\<open>Recv\<close> followed by
  the \<^verbatim>\<open>Send\<close> of its response, before the next \<^verbatim>\<open>Recv\<close>.  The response is the
  RequestHeaders response with status CONTINUE if the classifier allows the extracted
  address; otherwise it is the ImmediateResponse with status 403, the deny reason as
  body and the metadata \<open>blocked\<close> and \<open>reason\<close>.
\<close>

theorem header_stream:
  assumes "\<forall>p \<in> set rs. Request (fst p) = ProcessingRequest_RequestHeaders"
    and "Process (map (\<lambda>p. \<lparr>ctxErr = None, recvResult = RecvMsg (fst p), sendErr = snd p\<rparr>) rs
                  @ [\<lparr>ctxErr = None, recvResult = RecvEOF, sendErr = se\<rparr>]) = (tr, out)"
  shows "out = Returned None
    \<and> length (sent tr) = length rs
    \<and> wire tr =
        concat (map (\<lambda>p.
            let ip = projr (extractUpstreamIP (Attributes (fst p)));
                reason = (if ip = [] then ''unable to extract upstream IP address''
                          else snd (isUpstreamIPSafe ip))
            in [Recv (RecvMsg (fst p)),
                Send (Some
                  (if fst (isUpstreamIPSafe ip)
                   then \<lparr>Response = ProcessingResponse_RequestHeaders CommonResponse_CONTINUE,
                         DynamicMetadata = None\<rparr>
                   else \<lparr>Response = ProcessingResponse_ImmediateResponse 403 reason,
                         DynamicMetadata =
                           Some \<lparr>Fields = Some [''blocked'' \<mapsto> Some (BoolValue True),
                                                ''reason'' \<mapsto> Some (StringValue reason)]\<rparr>\<rparr>))])
          rs)
        @ [Recv RecvEOF]"
  using assms
proof (induction rs arbitrary: tr out)
  case Nil
  then show ?case by (auto simp: wire_def)
next
  case (Cons p rs)
  let ?turns = "map (\<lambda>p. \<lparr>ctxErr = None, recvResult = RecvMsg (fst p), sendErr = snd p\<rparr>) rs
                  @ [\<lparr>ctxErr = None, recvResult = RecvEOF, sendErr = se\<rparr>]"
  obtain tr' out' where run: "Process ?turns = (tr', out')"
    by (cases "Process ?turns")
  from Cons.prems(1) have hdr: "Request (fst p) = ProcessingRequest_RequestHeaders"
    and rest: "\<forall>p \<in> set rs. Request (fst p) = ProcessingRequest_RequestHeaders" by simp_all
  note IH = Cons.IH [OF rest run]
  obtain evs where e: "handleRequest (fst p) (snd p) = Inr evs" using handleRequest_returns by blast
  have w: "wire evs =
      (let ip = projr (extractUpstreamIP (Attributes (fst p)));
           reason = (if ip = [] then ''unable to extract upstream IP address''
                     else snd (isUpstreamIPSafe ip))
       in [Send (Some
             (if fst (isUpstreamIPSafe ip)
              then \<lparr>Response = ProcessingResponse_RequestHeaders CommonResponse_CONTINUE,
                    DynamicMetadata = None\<rparr>
              else \<lparr>Response = ProcessingResponse_ImmediateResponse 403 reason,
                    DynamicMetadata =
                      Some \<lparr>Fields = Some [''blocked'' \<mapsto> Some (BoolValue True),
                                           ''reason'' \<mapsto> Some (StringValue reason)]\<rparr>\<rparr>))])"
    using wire_handleRequest [OF e] hdr
    by (simp add: buildResponse_def fst_verdict Let_def continueResponse_def denyResponse_def
        StatusCode_Forbidden_def verdict_def isUpstreamIPSafe_empty)
  have n: "length (sent evs) = 1" using sent_handleRequest [OF e] by simp
  have "Process (map (\<lambda>p. \<lparr>ctxErr = None, recvResult = RecvMsg (fst p), sendErr = snd p\<rparr>) (p # rs)
                  @ [\<lparr>ctxErr = None, recvResult = RecvEOF, sendErr = se\<rparr>])
      = (Recv (RecvMsg (fst p)) # evs @ tr', out')"
    using Process_message [of "\<lparr>ctxErr = None, recvResult = RecvMsg (fst p), sendErr = snd p\<rparr>"
        "fst p" ?turns] e run
    by simp
  with Cons.prems(2) have tr: "tr = Recv (RecvMsg (fst p)) # evs @ tr'" and out: "out = out'" by simp_all
  have "wire tr = Recv (RecvMsg (fst p)) # wire evs @ wire tr'"
    unfolding tr by (simp add: wire_append [symmetric]) (simp add: wire_def)
  with IH w n tr out show ?case by (simp add: sent_append Let_def)
qed

lemma safe_of_example_request:
  "projr (extractUpstreamIP (Attributes (headersRequest ''93.184.216.34:443''))) = ''93.184.216.34''"
  "projr (extractUpstreamIP (Attributes (headersRequest ''192.168.1.1:80''))) = ''192.168.1.1''"
  by (simp_all add: headersRequest_def extractUpstreamIP_stored)

theorem header_stream_witness:
  "snd (Process
      [\<lparr>ctxErr = None, recvResult = RecvMsg (headersRequest ''93.184.216.34:443''), sendErr = None\<rparr>,
       \<lparr>ctxErr = None, recvResult = RecvMsg (headersRequest ''192.168.1.1:80''), sendErr = None\<rparr>,
       \<lparr>ctxErr = None, recvResult = RecvEOF, sendErr = None\<rparr>])
     = Returned None
   \<and> wire (fst (Process
      [\<lparr>ctxErr = None, recvResult = RecvMsg (headersRequest ''93.184.216.34:443''), sendErr = None\<rparr>,
       \<lparr>ctxErr = None, recvResult = RecvMsg (headersRequest ''192.168.1.1:80''), sendErr = None\<rparr>,
       \<lparr>ctxErr = None, recvResult = RecvEOF, sendErr = None\<rparr>]))
     = [Recv (RecvMsg (headersRequest ''93.184.216.34:443'')),
        Send (Some \<lparr>Response = ProcessingResponse_RequestHeaders CommonResponse_CONTINUE,
                    DynamicMetadata = None\<rparr>),
        Recv (RecvMsg (headersRequest ''192.168.1.1:80'')),
        Send (Some \<lparr>Response = ProcessingResponse_ImmediateResponse 403
                                 ''private network address is blocked (RFC1918)'',
                    DynamicMetadata =
                      Some \<lparr>Fields = Some [''blocked'' \<mapsto> Some (BoolValue True),
                        ''reason'' \<mapsto> Some (StringValue ''private network address is blocked (RFC1918)'')]\<rparr>\<rparr>),
        Recv RecvEOF]"
proof -
  let ?rs = "[(headersRequest ''93.184.216.34:443'', None::string option),
              (headersRequest ''192.168.1.1:80'', None)]"
  let ?turns = "map (\<lambda>p. \<lparr>ctxErr = None, recvResult = RecvMsg (fst p), sendErr = snd p\<rparr>) ?rs
                  @ [\<lparr>ctxErr = None, recvResult = RecvEOF, sendErr = None\<rparr>]"
  obtain tr out where run: "Process ?turns = (tr, out)" by (cases "Process ?turns")
  have hdr: "\<forall>p \<in> set ?rs. Request (fst p) = ProcessingRequest_RequestHeaders"
    by (simp add: headersRequest_def)
  have turns: "?turns =
      [\<lparr>ctxErr = None, recvResult = RecvMsg (headersRequest ''93.184.216.34:443''), sendErr = None\<rparr>,
       \<lparr>ctxErr = None, recvResult = RecvMsg (headersRequest ''192.168.1.1:80''), sendErr = None\<rparr>,
       \<lparr>ctxErr = None, recvResult = RecvEOF, sendErr = None\<rparr>]" by simp
  from header_stream [OF hdr run] have
    "out = Returned None \<and> wire tr =
       [Recv (RecvMsg (headersRequest ''93.184.216.34:443'')),
        Send (Some \<lparr>Response = ProcessingResponse_RequestHeaders CommonResponse_CONTINUE,
                    DynamicMetadata = None\<rparr>),
        Recv (RecvMsg (headersRequest ''192.168.1.1:80'')),
        Send (Some \<lparr>Response = ProcessingResponse_ImmediateResponse 403
                                 ''private network address is blocked (RFC1918)'',
                    DynamicMetadata =
                      Some \<lparr>Fields = Some [''blocked'' \<mapsto> Some (BoolValue True),
                        ''reason'' \<mapsto> Some (StringValue ''private network address is blocked (RFC1918)'')]\<rparr>\<rparr>),
        Recv RecvEOF]"
    by (simp add: safe_of_example_request safe_example safe_private Let_def)
  with run show ?thesis unfolding turns by simp
qed

text \<open>
  Claim C9, as amended.  When the context is found canceled at the \<^verbatim>\<open>select\<close> at the
  head of a turn, after any number of turns in which a message was received and
  answered, the session returns the context's error; its trace is the trace of the
  turns before, so it makes no further \<^verbatim>\<open>Recv\<close> and no further \<^verbatim>\<open>Send\<close>, whatever
  the stream still holds.
\<close>

theorem cancellation:
  assumes "\<forall>t \<in> set pre. ctxErr t = None \<and> (\<exists>req. recvResult t = RecvMsg req)"
    and "ctxErr t = Some e"
  shows "Process (pre @ t # rest) = (fst (Process pre), Returned (Some (ContextError e)))"
  using assms(1)
proof (induction pre)
  case Nil
  then show ?case using assms(2) by simp
next
  case (Cons p pre)
  then obtain req where p: "ctxErr p = None" "recvResult p = RecvMsg req" by auto
  show ?case using Cons Process_message [OF p] by simp
qed

theorem cancellation_witness:
  "Process ([messageTurn (headersRequest ''93.184.216.34:443'', None)]
       @ canceledTurn ''context canceled'' # [messageTurn (headersRequest ''192.168.1.1:80'', None)])
     = (fst (Process [messageTurn (headersRequest ''93.184.216.34:443'', None)]),
        Returned (Some (ContextError ''context canceled'')))
   \<and> wire (fst (Process [messageTurn (headersRequest ''93.184.216.34:443'', None)]))
     = [Recv (RecvMsg (headersRequest ''93.184.216.34:443'')), Send (Some continueResponse)]"
proof -
  have a: "\<forall>t \<in> set [messageTurn (headersRequest ''93.184.216.34:443'', None)].
      ctxErr t = None \<and> (\<exists>req. recvResult t = RecvMsg req)"
    by (simp add: messageTurn_def)
  have b: "ctxErr (canceledTurn ''context canceled'') = Some ''context canceled''"
    by (simp add: canceledTurn_def)
  have c: "wire (fst (Process [messageTurn (headersRequest ''93.184.216.34:443'', None)]))
     = [Recv (RecvMsg (headersRequest ''93.184.216.34:443'')), Send (Some continueResponse)]"
    by (simp add: messageTurn_def handleRequest_def headersRequest_def extractUpstreamIP_stored
        verdict_def safe_example buildResponse_def wire_def)
  from cancellation [OF a b] c show ?thesis by blast
qed

text \<open>
  Claim C9 as it is stated fails.  The context is read only at the \<^verbatim>\<open>select\<close>.  When
  it is canceled while \<^verbatim>\<open>Recv\<close> blocks, \<^verbatim>\<open>Recv\<close> returns the cancellation as its
  error and the session ends by the receive-error path (lines 155 to 157): its result is
  a status of code Unknown, not the context's error.
\<close>

theorem cancellation_during_recv_counterexample:
  "Process [messageTurn (headersRequest ''93.184.216.34:443'', None),
            \<lparr>ctxErr = None, recvResult = RecvErr ''context canceled'', sendErr = None\<rparr>]
     = ([Recv (RecvMsg (headersRequest ''93.184.216.34:443'')),
         Log (LogUpstreamIP ''93.184.216.34''),
         Log (LogAllowed ''93.184.216.34''),
         Send (Some continueResponse),
         Recv (RecvErr ''context canceled'')],
        Returned (Some (StatusError Unknown ''cannot receive stream request: context canceled'')))
   \<and> snd (Process [messageTurn (headersRequest ''93.184.216.34:443'', None),
            \<lparr>ctxErr = None, recvResult = RecvErr ''context canceled'', sendErr = None\<rparr>])
     \<noteq> Returned (Some (ContextError ''context canceled''))"
  by (simp add: messageTurn_def handleRequest_def headersRequest_def extractUpstreamIP_stored
      verdict_def safe_example buildResponse_def)

text \<open>
  Claim C6 (the code differs).  For a request of the body phase the \<^verbatim>\<open>switch\<close> only
  logs, and the response pointer stays nil; the \<^verbatim>\<open>Send\<close> after the \<^verbatim>\<open>switch\<close> is
  still called, with that nil pointer, before the next \<^verbatim>\<open>Recv\<close>.
\<close>

theorem body_phase_send:
  "Process [messageTurn (bodyRequest ''93.184.216.34:443'', None), eofTurn]
     = ([Recv (RecvMsg (bodyRequest ''93.184.216.34:443'')),
         Log (LogUpstreamIP ''93.184.216.34''),
         Log (LogUnexpected ProcessingRequest_RequestBody),
         Send None,
         Recv RecvEOF],
        Returned None)"
  by (simp add: messageTurn_def eofTurn_def handleRequest_def bodyRequest_def extractUpstreamIP_stored
      verdict_def safe_example buildResponse_def)

end
